theory Spec2Isabelle
  imports Main "HOL-Library.AList" "HOL-Library.Multiset" "HOL-Library.Word"
begin

section \<open>Values of the program\<close>

text \<open>
  The program is \<^verbatim>\<open>src/app.py\<close>: a Flask application with three routes
  (\<^verbatim>\<open>agregar_imagen\<close>, \<^verbatim>\<open>ver_imagenes\<close>, \<^verbatim>\<open>ver_imagen\<close>) over one directory of the
  file system, the predicate \<^verbatim>\<open>allowed_file\<close> and the helper \<^verbatim>\<open>generar_csv\<close>.

  A Python \<^verbatim>\<open>str\<close> is modelled as a \<open>string\<close> holding its UTF-8 encoding, and
  a Python \<^verbatim>\<open>bytes\<close> object as a list of 8-bit words.
\<close>

type_synonym bytes = "8 word list"

text \<open>What \<^verbatim>\<open>jsonify\<close> is given: the JSON value, not its serialisation.\<close>

datatype json =
    JString string
  | JArray "json list"
  | JObject "(string \<times> json) list"

text \<open>
  The body of an HTTP response: a JSON document, the bytes of a file, or the page the
  framework itself produces for an HTTP error that no handler of the application caught.
\<close>

datatype payload =
    JsonBody json
  | FileBody bytes
  | DefaultErrorPage

record response =
  status :: nat
  payload :: payload

text \<open>
  The request, as far as the program reads it: the bytes of the body and the media type
  of its \<^verbatim>\<open>Content-Type\<close> header (in lower case, without parameters; empty when there
  is none). The only thing \<^verbatim>\<open>agregar_imagen\<close> reads is \<^verbatim>\<open>request.data\<close>, and Werkzeug
  gives the empty bytes there when the media type is one of a form, since the body is
  then parsed into \<^verbatim>\<open>request.form\<close> and \<^verbatim>\<open>request.files\<close> instead.
\<close>

record request =
  body :: bytes
  mimetype :: string

definition form_mimetypes :: "string set" where
  "form_mimetypes =
     {''multipart/form-data'', ''application/x-www-form-urlencoded'', ''application/x-url-encoded''}"

definition request_data :: "request \<Rightarrow> bytes" where
  "request_data request = (if mimetype request \<in> form_mimetypes then [] else body request)"

text \<open>
  Python exceptions, by class and by the text \<^verbatim>\<open>str(e)\<close> gives. \<open>NotFound\<close> is
  \<^verbatim>\<open>werkzeug.exceptions.NotFound\<close>, an \<^verbatim>\<open>HTTPException\<close>; the others are built in.
  None is a subclass of another one of the list, and all derive from \<^verbatim>\<open>Exception\<close>.
\<close>

datatype exc_class =
    FileNotFoundError
  | NotADirectoryError
  | IsADirectoryError
  | ValueError
  | NotFound

datatype py_exception = PyExc exc_class string

fun class_of :: "py_exception \<Rightarrow> exc_class" where
  "class_of (PyExc c msg) = c"

fun str_exc :: "py_exception \<Rightarrow> string" where
  "str_exc (PyExc c msg) = msg"


section \<open>The extension filter\<close>

text \<open>
  \<^verbatim>\<open>
  ALLOWED_EXTENSIONS = {'jpg', 'jpeg', 'png'}

  def allowed_file(filename):
      return '.' in filename and filename.rsplit('.', 1)[1].lower() in ALLOWED_EXTENSIONS
  \<close>
\<close>

definition ALLOWED_EXTENSIONS :: "string set" where
  "ALLOWED_EXTENSIONS = {''jpg'', ''jpeg'', ''png''}"

text \<open>
  \<^verbatim>\<open>s.rsplit(sep, 1)\<close> for a one-character separator: the string is cut at the last
  occurrence of the separator; without one the result is the list of the string alone.
\<close>

definition rsplit1 :: "char \<Rightarrow> string \<Rightarrow> string list" where
  "rsplit1 sep s =
     (if sep \<in> set s
      then [rev (drop 1 (dropWhile (\<lambda>c. c \<noteq> sep) (rev s))),
            rev (takeWhile (\<lambda>c. c \<noteq> sep) (rev s))]
      else [s])"

text \<open>
  \<^verbatim>\<open>str.lower\<close> on the ASCII letters. Python lowers every cased code point; on the
  UTF-8 encoding the bytes from 128 on stay as they are. The two agree on whether the
  result is one of \<open>jpg\<close>, \<open>jpeg\<close>, \<open>png\<close>: no code point outside ASCII has a lower-case
  form that contains one of the letters of these three words.
\<close>

definition lower_char :: "char \<Rightarrow> char" where
  "lower_char c =
     (let n = (of_char c :: nat) in if 65 \<le> n \<and> n \<le> 90 then char_of (n + 32) else c)"

definition lower :: "string \<Rightarrow> string" where
  "lower s = map lower_char s"

text \<open>
  Python's \<^verbatim>\<open>and\<close> does not evaluate its right operand when the left one is false, so
  the index 1 is only read from a list of two parts.
\<close>

definition allowed_file :: "string \<Rightarrow> bool" where
  "allowed_file filename =
     (if CHR ''.'' \<in> set filename
      then lower (rsplit1 (CHR ''.'') filename ! 1) \<in> ALLOWED_EXTENSIONS
      else False)"


section \<open>Strings and POSIX paths\<close>

text \<open>
  \<^verbatim>\<open>s.startswith(pre)\<close>, \<^verbatim>\<open>s.split(sep)\<close> for a one-character separator (the result is
  never empty: the empty string gives one empty part) and \<^verbatim>\<open>sep.join(parts)\<close>.
\<close>

definition startswith :: "string \<Rightarrow> string \<Rightarrow> bool" where
  "startswith s pre = (take (length pre) s = pre)"

fun split_sep :: "char \<Rightarrow> string \<Rightarrow> string list" where
  "split_sep sep [] = [[]]"
| "split_sep sep (c # cs) =
     (if c = sep then [] # split_sep sep cs
      else (case split_sep sep cs of
              [] \<Rightarrow> [[c]]
            | part # parts \<Rightarrow> (c # part) # parts))"

fun py_join :: "string \<Rightarrow> string list \<Rightarrow> string" where
  "py_join sep [] = []"
| "py_join sep [x] = x"
| "py_join sep (x # y # ys) = x @ sep @ py_join sep (y # ys)"

text \<open>
  \<^verbatim>\<open>repr\<close> of a string that holds no quote, no backslash and no control character:
  the string between single quotes.
\<close>

definition py_repr :: "string \<Rightarrow> string" where
  "py_repr s = [CHR 0x27] @ s @ [CHR 0x27]"

text \<open>
  \<^verbatim>\<open>os.path.join(a, b)\<close> of \<^verbatim>\<open>posixpath\<close>, for two arguments:
  \<^verbatim>\<open>
  if b.startswith('/'):               path = b
  elif not path or path.endswith('/'): path += b
  else:                                path += '/' + b
  \<close>
\<close>

definition os_path_join :: "string \<Rightarrow> string \<Rightarrow> string" where
  "os_path_join a b =
     (if startswith b ''/'' then b
      else if a = [] \<or> last a = CHR ''/'' then a @ b
      else a @ ''/'' @ b)"

text \<open>
  \<^verbatim>\<open>posixpath.normpath\<close>. Its loop over the components:
  \<^verbatim>\<open>
  for comp in comps:
      if comp in ('', '.'):
          continue
      if (comp != '..' or (not initial_slashes and not new_comps) or
           (new_comps and new_comps[-1] == '..')):
          new_comps.append(comp)
      elif new_comps:
          new_comps.pop()
  \<close>
\<close>

fun normpath_loop :: "bool \<Rightarrow> string list \<Rightarrow> string list \<Rightarrow> string list" where
  "normpath_loop initial_slashes new_comps [] = new_comps"
| "normpath_loop initial_slashes new_comps (c # comps) =
     (if c = [] \<or> c = ''.'' then normpath_loop initial_slashes new_comps comps
      else if c \<noteq> ''..'' \<or> (\<not> initial_slashes \<and> new_comps = [])
                \<or> (new_comps \<noteq> [] \<and> last new_comps = ''..'')
      then normpath_loop initial_slashes (new_comps @ [c]) comps
      else if new_comps \<noteq> [] then normpath_loop initial_slashes (butlast new_comps) comps
      else normpath_loop initial_slashes new_comps comps)"

definition normpath :: "string \<Rightarrow> string" where
  "normpath path =
     (if path = [] then ''.''
      else
        let initial_slashes =
              (if startswith path ''/''
               then (if startswith path ''//'' \<and> \<not> startswith path ''///'' then 2 else 1)
               else (0::nat));
            comps = normpath_loop (initial_slashes \<noteq> 0) [] (split_sep (CHR ''/'') path);
            joined = replicate initial_slashes (CHR ''/'') @ py_join ''/'' comps
        in if joined = [] then ''.'' else joined)"


section \<open>The file system\<close>

text \<open>
  The file system is a tree of regular files and directories; a directory lists its
  entries by name. \<^verbatim>\<open>os.listdir\<close> reports the entries of a directory in an order that
  the operating system chooses; the order of the list of a directory stands for that
  order, and where a new entry is put is an accident of the model: what is proved about
  a listing after a write is about the names in it, not about their order.

  With the tree come the working directory of the process, given by its components from
  the root, and the root path of the Flask application (\<^verbatim>\<open>app.root_path\<close>, the path of
  the directory of \<^verbatim>\<open>app.py\<close>), which Flask hands to \<^verbatim>\<open>send_from_directory\<close>. The
  two are independent: \<^verbatim>\<open>open\<close> and \<^verbatim>\<open>os.listdir\<close> take a relative path from the
  working directory, \<^verbatim>\<open>send_from_directory\<close> takes it from the root path.

  Symbolic links, permissions and quotas are not part of the model, so the failures of a
  system call are the ones the shape of the tree decides: a missing entry, a file where
  a directory is needed, a directory where a file is needed.
\<close>

datatype node =
    File bytes
  | Dir "(string \<times> node) list"

record filesystem =
  root :: node
  cwd :: "string list"
  app_root_path :: string

datatype errno = ENOENT | ENOTDIR | EISDIR

fun lookup :: "node \<Rightarrow> string list \<Rightarrow> node option" where
  "lookup n [] = Some n"
| "lookup (File b) (c # cs) = None"
| "lookup (Dir es) (c # cs) = (case map_of es c of None \<Rightarrow> None | Some n \<Rightarrow> lookup n cs)"

text \<open>Replacing or creating the node at a position whose parent is a directory.\<close>

fun put :: "node \<Rightarrow> string list \<Rightarrow> node \<Rightarrow> node option" where
  "put n [] new = Some new"
| "put (File b) (c # cs) new = None"
| "put (Dir es) [c] new = Some (Dir (AList.update c new es))"
| "put (Dir es) (c # d # cs) new =
     (case map_of es c of
        None \<Rightarrow> None
      | Some n \<Rightarrow> (case put n (d # cs) new of
                    None \<Rightarrow> None
                  | Some n' \<Rightarrow> Some (Dir (AList.update c n' es))))"

text \<open>
  Path resolution, component by component: every component is looked up in a
  directory; an empty component and \<open>.\<close> stay there, \<open>..\<close> goes to the parent (the root is
  its own parent), a name goes to the entry of that name.
\<close>

fun walk :: "node \<Rightarrow> string list \<Rightarrow> string list \<Rightarrow> errno + string list" where
  "walk r cur [] = Inr cur"
| "walk r cur (c # cs) =
     (case lookup r cur of
        None \<Rightarrow> Inl ENOENT
      | Some (File b) \<Rightarrow> Inl ENOTDIR
      | Some (Dir es) \<Rightarrow>
          (if c = [] \<or> c = ''.'' then walk r cur cs
           else if c = ''..'' then walk r (butlast cur) cs
           else walk r (cur @ [c]) cs))"

definition path_start :: "filesystem \<Rightarrow> string \<Rightarrow> string list" where
  "path_start fs p = (if startswith p ''/'' then [] else cwd fs)"

definition resolve :: "filesystem \<Rightarrow> string \<Rightarrow> errno + string list" where
  "resolve fs p =
     (if p = [] then Inl ENOENT
      else walk (root fs) (path_start fs p) (split_sep (CHR ''/'') p))"

definition node_at :: "filesystem \<Rightarrow> string \<Rightarrow> errno + node" where
  "node_at fs p =
     (case resolve fs p of
        Inl e \<Rightarrow> Inl e
      | Inr q \<Rightarrow> (case lookup (root fs) q of None \<Rightarrow> Inl ENOENT | Some n \<Rightarrow> Inr n))"

text \<open>The \<^verbatim>\<open>OSError\<close> subclass Python raises for an error number, with its text.\<close>

fun os_error :: "errno \<Rightarrow> string \<Rightarrow> py_exception" where
  "os_error ENOENT p =
     PyExc FileNotFoundError (''[Errno 2] No such file or directory: '' @ py_repr p)"
| "os_error ENOTDIR p =
     PyExc NotADirectoryError (''[Errno 20] Not a directory: '' @ py_repr p)"
| "os_error EISDIR p =
     PyExc IsADirectoryError (''[Errno 21] Is a directory: '' @ py_repr p)"

text \<open>
  \<^verbatim>\<open>
  with open(filepath, 'wb') as img_file:
      img_file.write(data)
  \<close>
  The directory of the file has to exist; the file is created, or truncated and
  overwritten when it exists. The file system is returned only when the write was done.
\<close>

definition open_wb_write :: "filesystem \<Rightarrow> string \<Rightarrow> bytes \<Rightarrow> py_exception + filesystem" where
  "open_wb_write fs p data =
     (if p = [] then Inl (os_error ENOENT p)
      else
        let comps = split_sep (CHR ''/'') p; name = last comps in
        case walk (root fs) (path_start fs p) (butlast comps) of
          Inl e \<Rightarrow> Inl (os_error e p)
        | Inr d \<Rightarrow>
            (case lookup (root fs) d of
               None \<Rightarrow> Inl (os_error ENOENT p)
             | Some (File b) \<Rightarrow> Inl (os_error ENOTDIR p)
             | Some (Dir es) \<Rightarrow>
                 if name = [] \<or> name = ''.'' \<or> name = ''..'' then Inl (os_error EISDIR p)
                 else (case map_of es name of
                         Some (Dir sub) \<Rightarrow> Inl (os_error EISDIR p)
                       | _ \<Rightarrow> (case put (root fs) (d @ [name]) (File data) of
                                 None \<Rightarrow> Inl (os_error ENOENT p)
                               | Some r \<Rightarrow> Inr (fs\<lparr>root := r\<rparr>)))))"

definition os_listdir :: "filesystem \<Rightarrow> string \<Rightarrow> py_exception + string list" where
  "os_listdir fs p =
     (case node_at fs p of
        Inl e \<Rightarrow> Inl (os_error e p)
      | Inr (File b) \<Rightarrow> Inl (os_error ENOTDIR p)
      | Inr (Dir es) \<Rightarrow> Inr (map fst es))"

definition os_path_isfile :: "filesystem \<Rightarrow> string \<Rightarrow> bool" where
  "os_path_isfile fs p = (case node_at fs p of Inr (File b) \<Rightarrow> True | _ \<Rightarrow> False)"


section \<open>What the program uses of Flask\<close>

text \<open>
  \<^verbatim>\<open>jsonify(obj)\<close> is a response of status 200 whose body is the JSON document; a view
  that returns the pair \<^verbatim>\<open>(jsonify(obj), code)\<close> answers with that status code.
\<close>

definition jsonify :: "json \<Rightarrow> response" where
  "jsonify obj = \<lparr>status = 200, payload = JsonBody obj\<rparr>"

definition with_status :: "response \<Rightarrow> nat \<Rightarrow> response" where
  "with_status r code = r\<lparr>status := code\<rparr>"

text \<open>
  \<^verbatim>\<open>werkzeug.security.safe_join(directory, filename)\<close>, on a POSIX system (where there is
  no alternative path separator):
  \<^verbatim>\<open>
  if not directory:
      directory = "."
  if filename != "":
      filename = posixpath.normpath(filename)
  if (os.path.isabs(filename) or filename.startswith("/")
          or filename == ".." or filename.startswith("../")):
      return None
  return posixpath.join(directory, filename)
  \<close>
\<close>

definition safe_join :: "string \<Rightarrow> string \<Rightarrow> string option" where
  "safe_join directory filename =
     (let directory = (if directory = [] then ''.'' else directory);
          filename = (if filename \<noteq> [] then normpath filename else filename)
      in if startswith filename ''/'' \<or> filename = ''..'' \<or> startswith filename ''../''
         then None
         else Some (os_path_join directory filename))"

text \<open>
  \<^verbatim>\<open>send_file\<close> for a plain \<^verbatim>\<open>GET\<close> (no \<^verbatim>\<open>Range\<close> or conditional header): the bytes
  of the file with status 200.
\<close>

definition send_file :: "filesystem \<Rightarrow> string \<Rightarrow> py_exception + response" where
  "send_file fs p =
     (case node_at fs p of
        Inl e \<Rightarrow> Inl (os_error e p)
      | Inr (Dir es) \<Rightarrow> Inl (os_error EISDIR p)
      | Inr (File b) \<Rightarrow> Inr \<lparr>status = 200, payload = FileBody b\<rparr>)"

text \<open>
  \<^verbatim>\<open>send_from_directory(directory, path)\<close>: Flask hands the call to Werkzeug with the
  root path of the application, against which a relative directory is taken:
  \<^verbatim>\<open>
  path_str = safe_join(directory, path)
  if path_str is None:
      raise NotFound()
  path_str = os.path.join(root_path, path_str)
  if not os.path.isfile(path_str):
      raise NotFound()
  return send_file(path_str, environ, **kwargs)
  \<close>
  So the relative path \<^verbatim>\<open>uploads\<close> names the same directory for \<^verbatim>\<open>open\<close>,
  \<^verbatim>\<open>os.listdir\<close> and \<^verbatim>\<open>send_from_directory\<close> only when the process runs in the root path
  of the application.
\<close>

definition not_found :: py_exception where
  "not_found = PyExc NotFound ''404 Not Found''"

definition send_from_directory :: "filesystem \<Rightarrow> string \<Rightarrow> string \<Rightarrow> py_exception + response" where
  "send_from_directory fs directory path =
     (case safe_join directory path of
        None \<Rightarrow> Inl not_found
      | Some path_str \<Rightarrow>
          (let path_str = os_path_join (app_root_path fs) path_str
           in if \<not> os_path_isfile fs path_str then Inl not_found
              else send_file fs path_str))"


text \<open>
  What the client gets when a view returns or raises: an \<^verbatim>\<open>HTTPException\<close> that the
  view did not catch becomes the framework's own error page with the status code of the
  exception, any other exception the page of status 500.
\<close>

definition dispatch :: "py_exception + response \<Rightarrow> response" where
  "dispatch r =
     (case r of
        Inr resp \<Rightarrow> resp
      | Inl e \<Rightarrow>
          if class_of e = NotFound then \<lparr>status = 404, payload = DefaultErrorPage\<rparr>
          else \<lparr>status = 500, payload = DefaultErrorPage\<rparr>)"


section \<open>The routes\<close>

definition UPLOAD_FOLDER :: string where
  "UPLOAD_FOLDER = ''uploads''"

text \<open>
  \<^verbatim>\<open>
  @app.route('/agregarImagen', methods=['POST'])
  def agregar_imagen():
      if not request.data:
          return jsonify({"error": "No image data received"}), 400
      filename = "received_image.jpg"
      filepath = os.path.join(UPLOAD_FOLDER, filename)
      try:
          with open(filepath, 'wb') as img_file:
              img_file.write(request.data)
          return jsonify({"message": f"Image successfully saved at {filepath}"}), 200
      except Exception as e:
          return jsonify({"error": f"Failed to save image: {str(e)}"}), 500
  \<close>
  The view returns the response and the file system it leaves.
\<close>

definition agregar_imagen :: "filesystem \<Rightarrow> request \<Rightarrow> filesystem \<times> response" where
  "agregar_imagen fs request =
     (if request_data request = []
      then (fs, with_status (jsonify (JObject [(''error'', JString ''No image data received'')])) 400)
      else
        let filename = ''received_image.jpg'';
            filepath = os_path_join UPLOAD_FOLDER filename
        in case open_wb_write fs filepath (request_data request) of
             Inr fs' \<Rightarrow>
               (fs', with_status (jsonify (JObject
                  [(''message'', JString (''Image successfully saved at '' @ filepath))])) 200)
           | Inl e \<Rightarrow>
               (fs, with_status (jsonify (JObject
                  [(''error'', JString (''Failed to save image: '' @ str_exc e))])) 500))"

text \<open>
  \<^verbatim>\<open>
  @app.route('/verImagenes', methods=['GET'])
  def ver_imagenes():
      try:
          imagenes = os.listdir(app.config['UPLOAD_FOLDER'])
          imagenes = [img for img in imagenes]
          return jsonify({"imagenes": imagenes}), 200
      except Exception as e:
          return jsonify({"error": f"Error al obtener las imagenes: {e}"}), 500
  \<close>
  (the source writes the word with an accented \<open>a\<close>, here the two bytes of its UTF-8
  encoding).
\<close>

definition ver_imagenes :: "filesystem \<Rightarrow> response" where
  "ver_imagenes fs =
     (case os_listdir fs UPLOAD_FOLDER of
        Inr imagenes \<Rightarrow>
          (let imagenes = map (\<lambda>img. img) imagenes
           in with_status (jsonify (JObject [(''imagenes'', JArray (map JString imagenes))])) 200)
      | Inl e \<Rightarrow>
          with_status (jsonify (JObject
            [(''error'', JString (''Error al obtener las im'' @ [CHR 0xC3, CHR 0xA1] @ ''genes: ''
                                   @ str_exc e))])) 500)"

text \<open>
  \<^verbatim>\<open>
  @app.route('/verImagen/<filename>', methods=['GET'])
  def ver_imagen(filename):
      try:
          return send_from_directory(app.config['UPLOAD_FOLDER'], filename)
      except FileNotFoundError:
          return jsonify({"error": "Imagen no encontrada"}), 404
  \<close>
  Only a \<^verbatim>\<open>FileNotFoundError\<close> is caught; every other exception leaves the view.
\<close>

definition ver_imagen :: "filesystem \<Rightarrow> string \<Rightarrow> py_exception + response" where
  "ver_imagen fs filename =
     (case send_from_directory fs UPLOAD_FOLDER filename of
        Inr resp \<Rightarrow> Inr resp
      | Inl e \<Rightarrow>
          if class_of e = FileNotFoundError
          then Inr (with_status (jsonify (JObject [(''error'', JString ''Imagen no encontrada'')])) 404)
          else Inl e)"

text \<open>
  The three requests, as the client sees them. The URL rule \<^verbatim>\<open>/verImagen/<filename>\<close>
  uses the default converter, which matches a text that is not empty and holds no slash;
  for any other path after \<^verbatim>\<open>/verImagen/\<close> no rule matches, the view is not called and
  the answer is the page of status 404.
\<close>

definition url_rule_matches :: "string \<Rightarrow> bool" where
  "url_rule_matches filename = (filename \<noteq> [] \<and> CHR ''/'' \<notin> set filename)"

definition POST_agregarImagen :: "filesystem \<Rightarrow> request \<Rightarrow> filesystem \<times> response" where
  "POST_agregarImagen fs request = agregar_imagen fs request"

definition GET_verImagenes :: "filesystem \<Rightarrow> response" where
  "GET_verImagenes fs = ver_imagenes fs"

definition GET_verImagen :: "filesystem \<Rightarrow> string \<Rightarrow> response" where
  "GET_verImagen fs filename =
     (if url_rule_matches filename then dispatch (ver_imagen fs filename)
      else \<lparr>status = 404, payload = DefaultErrorPage\<rparr>)"

text \<open>
  The position of the directory the upload is written to and listed from (\<^verbatim>\<open>uploads\<close>
  in the working directory), and whether a position lies below the directory the images
  are served from (\<^verbatim>\<open>uploads\<close> in the root path of the application). The process runs
  in the root path of the application when that path is absolute and leads to the
  working directory.
\<close>

definition upload_dir :: "filesystem \<Rightarrow> string list" where
  "upload_dir fs = cwd fs @ [UPLOAD_FOLDER]"


definition runs_in_app_root :: "filesystem \<Rightarrow> bool" where
  "runs_in_app_root fs =
     (startswith (app_root_path fs) ''/'' \<and> resolve fs (app_root_path fs) = Inr (cwd fs))"




section \<open>The CSV helper\<close>

text \<open>
  A row is a Python \<^verbatim>\<open>dict\<close> from column names to cell texts, in insertion order.
  \<^verbatim>\<open>csv.writer\<close> in its default dialect (\<open>excel\<close>): fields are separated by a comma, a
  record ends with carriage return and line feed, and a field is put between double
  quotes, with every double quote in it doubled, exactly when it holds a comma, a double
  quote, a carriage return or a line feed. A record of one empty field is written as
  two double quotes.
\<close>

type_synonym row = "(string \<times> string) list"

definition needs_quotes :: "string \<Rightarrow> bool" where
  "needs_quotes field =
     list_ex (\<lambda>c. c = CHR '','' \<or> c = CHR 0x22 \<or> c = CHR 0x0D \<or> c = CHR 0x0A) field"

definition csv_field :: "string \<Rightarrow> string" where
  "csv_field field =
     (if needs_quotes field
      then [CHR 0x22] @ concat (map (\<lambda>c. if c = CHR 0x22 then [c, c] else [c]) field) @ [CHR 0x22]
      else field)"

definition csv_record :: "string list \<Rightarrow> string" where
  "csv_record cells =
     (if cells = [[]] then [CHR 0x22, CHR 0x22] else py_join '','' (map csv_field cells))
     @ [CHR 0x0D, CHR 0x0A]"

text \<open>
  \<^verbatim>\<open>csv.DictWriter\<close> with its defaults (\<^verbatim>\<open>restval=""\<close>, \<^verbatim>\<open>extrasaction="raise"\<close>):
  \<^verbatim>\<open>
  def writeheader(self):
      header = dict(zip(self.fieldnames, self.fieldnames))
      return self.writerow(header)

  def _dict_to_list(self, rowdict):
      if self.extrasaction == "raise":
          wrong_fields = rowdict.keys() - self.fieldnames
          if wrong_fields:
              raise ValueError("dict contains fields not in fieldnames: "
                               + ", ".join([repr(x) for x in wrong_fields]))
      return (rowdict.get(key, self.restval) for key in self.fieldnames)

  def writerow(self, rowdict):
      return self.writer.writerow(self._dict_to_list(rowdict))
  \<close>
  The writer appends to the text of the \<^verbatim>\<open>StringIO\<close>, which is passed along.
\<close>

definition dict_to_list :: "string list \<Rightarrow> row \<Rightarrow> py_exception + string list" where
  "dict_to_list fieldnames rowdict =
     (let wrong_fields = filter (\<lambda>k. k \<notin> set fieldnames) (map fst rowdict)
      in if wrong_fields \<noteq> []
         then Inl (PyExc ValueError (''dict contains fields not in fieldnames: ''
                                      @ py_join '', '' (map py_repr wrong_fields)))
         else Inr (map (\<lambda>key. case map_of rowdict key of Some v \<Rightarrow> v | None \<Rightarrow> []) fieldnames))"

definition writerow :: "string list \<Rightarrow> string \<Rightarrow> row \<Rightarrow> py_exception + string" where
  "writerow fieldnames output rowdict =
     (case dict_to_list fieldnames rowdict of
        Inl e \<Rightarrow> Inl e
      | Inr cells \<Rightarrow> Inr (output @ csv_record cells))"

definition writeheader :: "string list \<Rightarrow> string \<Rightarrow> py_exception + string" where
  "writeheader fieldnames output = writerow fieldnames output (zip fieldnames fieldnames)"

text \<open>The loop \<^verbatim>\<open>for row in data: writer.writerow(row)\<close>.\<close>

fun writerows_loop :: "string list \<Rightarrow> string \<Rightarrow> row list \<Rightarrow> py_exception + string" where
  "writerows_loop fieldnames output [] = Inr output"
| "writerows_loop fieldnames output (r # data) =
     (case writerow fieldnames output r of
        Inl e \<Rightarrow> Inl e
      | Inr output' \<Rightarrow> writerows_loop fieldnames output' data)"

text \<open>
  \<^verbatim>\<open>
  def generar_csv(data):
      if not data:
          return ''
      output = io.StringIO()
      writer = csv.DictWriter(output, fieldnames=data[0].keys())
      writer.writeheader()
      for row in data:
          writer.writerow(row)
      return output.getvalue()
  \<close>
\<close>

definition generar_csv :: "row list \<Rightarrow> py_exception + string" where
  "generar_csv data =
     (if data = [] then Inr []
      else
        let fieldnames = map fst (hd data)
        in case writeheader fieldnames [] of
             Inl e \<Rightarrow> Inl e
           | Inr output \<Rightarrow> writerows_loop fieldnames output data)"


section \<open>Example file systems\<close>

text \<open>
  The application directory \<open>/srv/app\<close> as a checkout leaves it, without the directory
  \<open>uploads\<close> (the program never creates it), and with an empty one. A third one has a
  sub-directory and a text file in \<open>uploads\<close>, and a fourth holds one uploaded image. In
  these the process runs in \<open>/srv/app\<close>. In the last one it runs in \<open>/home/op\<close>, which
  has a directory \<open>uploads\<close> of its own, while the application directory has none.
\<close>

definition app_files :: "(string \<times> node) list" where
  "app_files = [(''app.py'', File [0x66, 0x72, 0x6F, 0x6D]), (''.env'', File [0x4B, 0x3D, 0x31])]"

definition fs_no_uploads :: filesystem where
  "fs_no_uploads =
     \<lparr>root = Dir [(''srv'', Dir [(''app'', Dir app_files)])],
      cwd = [''srv'', ''app''], app_root_path = ''/srv/app''\<rparr>"

definition fs_empty_uploads :: filesystem where
  "fs_empty_uploads =
     \<lparr>root = Dir [(''srv'', Dir [(''app'', Dir (app_files @ [(''uploads'', Dir [])]))])],
      cwd = [''srv'', ''app''], app_root_path = ''/srv/app''\<rparr>"

definition fs_mixed_uploads :: filesystem where
  "fs_mixed_uploads =
     \<lparr>root = Dir [(''srv'', Dir [(''app'', Dir (app_files @
         [(''uploads'', Dir [(''old'', Dir []), (''notes.txt'', File [0x68, 0x69])])]))])],
      cwd = [''srv'', ''app''], app_root_path = ''/srv/app''\<rparr>"


definition fs_other_cwd :: filesystem where
  "fs_other_cwd =
     \<lparr>root = Dir [(''srv'', Dir [(''app'', Dir app_files)]),
                  (''home'', Dir [(''op'', Dir [(''uploads'', Dir [])])])],
      cwd = [''home'', ''op''], app_root_path = ''/srv/app''\<rparr>"

definition jpeg_a :: bytes where
  "jpeg_a = [0xFF, 0xD8, 0xFF, 0xE0]"


definition upload_a :: request where
  "upload_a = \<lparr>body = jpeg_a, mimetype = ''image/jpeg''\<rparr>"



section \<open>The extension filter: what it accepts\<close>

lemma rsplit1_last:
  assumes "sep \<notin> set ext"
  shows "rsplit1 sep (base @ sep # ext) = [base, ext]"
proof -
  have t: "takeWhile (\<lambda>c. c \<noteq> sep) (rev ext @ sep # rev base) = rev ext"
    using assms by (auto simp add: takeWhile_tail)
  have d: "dropWhile (\<lambda>c. c \<noteq> sep) (rev ext @ sep # rev base) = sep # rev base"
    using assms by (auto simp add: dropWhile_append3)
  show ?thesis by (simp add: rsplit1_def t d)
qed

lemma split_at_last:
  assumes "sep \<in> set s"
  shows "\<exists>base ext. s = base @ sep # ext \<and> sep \<notin> set ext"
  using split_list_last[OF assms] by blast

lemma allowed_file_split:
  assumes "CHR ''.'' \<notin> set ext"
  shows "allowed_file (base @ CHR ''.'' # ext) \<longleftrightarrow> lower ext \<in> ALLOWED_EXTENSIONS"
  unfolding allowed_file_def rsplit1_last[OF assms] by simp

lemma allowed_file_iff:
  "allowed_file filename \<longleftrightarrow>
     (\<exists>base ext. filename = base @ ''.'' @ ext \<and> CHR ''.'' \<notin> set ext
        \<and> lower ext \<in> {''jpg'', ''jpeg'', ''png''})"
proof
  assume l: "allowed_file filename"
  then have "CHR ''.'' \<in> set filename"
    by (simp add: allowed_file_def split: if_splits)
  then obtain base ext where s: "filename = base @ CHR ''.'' # ext" and e: "CHR ''.'' \<notin> set ext"
    using split_at_last[of "CHR ''.''" filename] by auto
  from l have "lower ext \<in> ALLOWED_EXTENSIONS"
    unfolding s allowed_file_split[OF e] .
  then have m: "lower ext \<in> {''jpg'', ''jpeg'', ''png''}"
    unfolding ALLOWED_EXTENSIONS_def .
  have "filename = base @ ''.'' @ ext" using s by simp
  with e m show "\<exists>base ext. filename = base @ ''.'' @ ext \<and> CHR ''.'' \<notin> set ext
         \<and> lower ext \<in> {''jpg'', ''jpeg'', ''png''}" by (intro exI conjI)
next
  assume "\<exists>base ext. filename = base @ ''.'' @ ext \<and> CHR ''.'' \<notin> set ext
         \<and> lower ext \<in> {''jpg'', ''jpeg'', ''png''}"
  then obtain base ext where s0: "filename = base @ ''.'' @ ext" and e: "CHR ''.'' \<notin> set ext"
    and m: "lower ext \<in> {''jpg'', ''jpeg'', ''png''}" by auto
  have s: "filename = base @ CHR ''.'' # ext" using s0 by simp
  show "allowed_file filename" unfolding s allowed_file_split[OF e] ALLOWED_EXTENSIONS_def using m .
qed

lemma filepath_eq:
  "os_path_join UPLOAD_FOLDER ''received_image.jpg'' = ''uploads/received_image.jpg''"
  by (simp add: os_path_join_def UPLOAD_FOLDER_def startswith_def)

lemma upload_decided_by_data_and_write:
  "POST_agregarImagen fs request =
     (if request_data request = []
      then (fs, \<lparr>status = 400,
                 payload = JsonBody (JObject [(''error'', JString ''No image data received'')])\<rparr>)
      else (case open_wb_write fs ''uploads/received_image.jpg'' (request_data request) of
              Inr fs' \<Rightarrow>
                (fs', \<lparr>status = 200,
                       payload = JsonBody (JObject [(''message'',
                         JString ''Image successfully saved at uploads/received_image.jpg'')])\<rparr>)
            | Inl e \<Rightarrow>
                (fs, \<lparr>status = 500,
                      payload = JsonBody (JObject [(''error'',
                        JString (''Failed to save image: '' @ str_exc e))])\<rparr>)))"
  by (simp add: POST_agregarImagen_def agregar_imagen_def jsonify_def with_status_def filepath_eq
        split: sum.splits)

text \<open>
  Claim C10. \<open>allowed_file filename\<close> is true exactly when the file name has a dot and the
  text after its last dot, in lower case, is \<open>jpg\<close>, \<open>jpeg\<close> or \<open>png\<close>; a name without a dot
  is refused. The upload route does not consult the predicate: what it answers is decided
  by two things alone, whether \<^verbatim>\<open>request.data\<close> is empty (status 400) and whether the
  write of \<^verbatim>\<open>uploads/received_image.jpg\<close> raises (status 500); every other request is
  accepted with status 200, so no upload is refused on the ground of an extension. Two
  requests with the same \<^verbatim>\<open>request.data\<close> get the same answer.
\<close>

theorem allowed_file_spec:
  "(allowed_file filename \<longleftrightarrow>
      (\<exists>base ext. filename = base @ ''.'' @ ext \<and> CHR ''.'' \<notin> set ext
         \<and> lower ext \<in> {''jpg'', ''jpeg'', ''png''}))
   \<and> (CHR ''.'' \<notin> set filename \<longrightarrow> \<not> allowed_file filename)
   \<and> POST_agregarImagen fs request =
       (if request_data request = []
        then (fs, \<lparr>status = 400,
                   payload = JsonBody (JObject [(''error'', JString ''No image data received'')])\<rparr>)
        else (case open_wb_write fs ''uploads/received_image.jpg'' (request_data request) of
                Inr fs' \<Rightarrow>
                  (fs', \<lparr>status = 200,
                         payload = JsonBody (JObject [(''message'',
                           JString ''Image successfully saved at uploads/received_image.jpg'')])\<rparr>)
              | Inl e \<Rightarrow>
                  (fs, \<lparr>status = 500,
                        payload = JsonBody (JObject [(''error'',
                          JString (''Failed to save image: '' @ str_exc e))])\<rparr>)))
   \<and> (request_data request = request_data request' \<longrightarrow>
        POST_agregarImagen fs request = POST_agregarImagen fs request')"
proof (intro conjI impI)
  show "allowed_file filename \<longleftrightarrow>
      (\<exists>base ext. filename = base @ ''.'' @ ext \<and> CHR ''.'' \<notin> set ext
         \<and> lower ext \<in> {''jpg'', ''jpeg'', ''png''})"
    by (rule allowed_file_iff)
next
  assume "CHR ''.'' \<notin> set filename"
  then show "\<not> allowed_file filename" by (simp add: allowed_file_def)
next
  show "POST_agregarImagen fs request =
       (if request_data request = []
        then (fs, \<lparr>status = 400,
                   payload = JsonBody (JObject [(''error'', JString ''No image data received'')])\<rparr>)
        else (case open_wb_write fs ''uploads/received_image.jpg'' (request_data request) of
                Inr fs' \<Rightarrow>
                  (fs', \<lparr>status = 200,
                         payload = JsonBody (JObject [(''message'',
                           JString ''Image successfully saved at uploads/received_image.jpg'')])\<rparr>)
              | Inl e \<Rightarrow>
                  (fs, \<lparr>status = 500,
                        payload = JsonBody (JObject [(''error'',
                          JString (''Failed to save image: '' @ str_exc e))])\<rparr>)))"
    by (rule upload_decided_by_data_and_write)
next
  assume "request_data request = request_data request'"
  then show "POST_agregarImagen fs request = POST_agregarImagen fs request'"
    by (simp add: upload_decided_by_data_and_write)
qed

theorem allowed_file_spec_witness:
  "CHR ''.'' \<notin> set ''README'' \<and> \<not> allowed_file ''README''
   \<and> request_data upload_a = request_data \<lparr>body = jpeg_a, mimetype = ''text/plain''\<rparr>
   \<and> POST_agregarImagen fs_empty_uploads upload_a
       = POST_agregarImagen fs_empty_uploads \<lparr>body = jpeg_a, mimetype = ''text/plain''\<rparr>"
proof -
  let ?r2 = "\<lparr>body = jpeg_a, mimetype = ''text/plain''\<rparr>"
  note t = allowed_file_spec[of "''README''" fs_empty_uploads upload_a ?r2]
  have h1: "CHR ''.'' \<notin> set ''README''" by simp
  have h2: "request_data upload_a = request_data ?r2" by code_simp
  have c1: "\<not> allowed_file ''README''"
    by (rule t[THEN conjunct2, THEN conjunct1, THEN mp, OF h1])
  have c2: "POST_agregarImagen fs_empty_uploads upload_a = POST_agregarImagen fs_empty_uploads ?r2"
    by (rule t[THEN conjunct2, THEN conjunct2, THEN conjunct2, THEN mp, OF h2])
  from h1 c1 h2 c2 show ?thesis by (intro conjI)
qed


section \<open>The upload route\<close>

text \<open>
  Claim C4. A \<^verbatim>\<open>POST /agregarImagen\<close> whose body is empty, and more generally one whose
  \<^verbatim>\<open>request.data\<close> is empty, is answered with status 400 and the JSON body
  \<^verbatim>\<open>{"error": "No image data received"}\<close>, and the file system is the one before the
  request: nothing is written.
\<close>

theorem empty_body_rejected:
  "body request = [] \<or> request_data request = [] \<Longrightarrow>
     POST_agregarImagen fs request =
       (fs, \<lparr>status = 400,
             payload = JsonBody (JObject [(''error'', JString ''No image data received'')])\<rparr>)"
proof -
  assume "body request = [] \<or> request_data request = []"
  then have "request_data request = []" by (auto simp add: request_data_def)
  then show ?thesis by (simp add: upload_decided_by_data_and_write)
qed

theorem empty_body_rejected_witness:
  "body \<lparr>body = [], mimetype = ''image/jpeg''\<rparr> = []
   \<and> POST_agregarImagen fs_mixed_uploads \<lparr>body = [], mimetype = ''image/jpeg''\<rparr> =
       (fs_mixed_uploads, \<lparr>status = 400,
             payload = JsonBody (JObject [(''error'', JString ''No image data received'')])\<rparr>)"
proof -
  have h: "body \<lparr>body = [], mimetype = ''image/jpeg''\<rparr> = []" by simp
  from h empty_body_rejected[OF disjI1, OF h] show ?thesis by (intro conjI)
qed

text \<open>
  Claim C6. When the body the view reads, \<^verbatim>\<open>request.data\<close>, is not empty and writing it
  to the file raises an exception \<open>e\<close>, the answer has status 500 and a JSON body
  \<^verbatim>\<open>{"error": msg}\<close> whose text \<open>msg\<close> contains \<^verbatim>\<open>str(e)\<close> (it is
  \<^verbatim>\<open>"Failed to save image: "\<close> followed by it); the file system is left as it was.
\<close>

theorem write_failure_reported:
  assumes "request_data request \<noteq> []"
    and "open_wb_write fs (os_path_join UPLOAD_FOLDER ''received_image.jpg'') (request_data request) = Inl e"
  shows "\<exists>msg. POST_agregarImagen fs request =
             (fs, \<lparr>status = 500, payload = JsonBody (JObject [(''error'', JString msg)])\<rparr>)
           \<and> (\<exists>pre post. msg = pre @ str_exc e @ post)"
proof -
  let ?msg = "''Failed to save image: '' @ str_exc e"
  have r: "POST_agregarImagen fs request =
             (fs, \<lparr>status = 500, payload = JsonBody (JObject [(''error'', JString ?msg)])\<rparr>)"
    using assms by (simp add: POST_agregarImagen_def agregar_imagen_def jsonify_def with_status_def)
  have c: "?msg = ''Failed to save image: '' @ str_exc e @ []" by simp
  have i: "\<exists>pre post. ?msg = pre @ str_exc e @ post"
    by (rule exI[of _ "''Failed to save image: ''"], rule exI[of _ "[]"]) (rule c)
  show ?thesis by (rule exI[of _ ?msg], rule conjI, rule r, rule i)
qed

theorem write_failure_reported_witness:
  "request_data upload_a \<noteq> []
   \<and> open_wb_write fs_no_uploads (os_path_join UPLOAD_FOLDER ''received_image.jpg'')
        (request_data upload_a)
       = Inl (os_error ENOENT ''uploads/received_image.jpg'')
   \<and> (\<exists>msg. POST_agregarImagen fs_no_uploads upload_a =
             (fs_no_uploads, \<lparr>status = 500, payload = JsonBody (JObject [(''error'', JString msg)])\<rparr>)
           \<and> (\<exists>pre post. msg = pre @ str_exc (os_error ENOENT ''uploads/received_image.jpg'') @ post))"
proof -
  have h1: "request_data upload_a \<noteq> []"
    by code_simp
  have h2: "open_wb_write fs_no_uploads (os_path_join UPLOAD_FOLDER ''received_image.jpg'')
        (request_data upload_a)
       = Inl (os_error ENOENT ''uploads/received_image.jpg'')"
    by code_simp
  from h1 h2 write_failure_reported[OF h1 h2] show ?thesis by (intro conjI)
qed

text \<open>
  Claim C8. When the body the view reads, \<^verbatim>\<open>request.data\<close>, is not empty and it is
  written to the file, the answer has status 200 and a JSON body \<^verbatim>\<open>{"message": msg}\<close>
  whose text contains the path the file was saved at, \<^verbatim>\<open>uploads/received_image.jpg\<close>;
  the file system is the one the write left.
\<close>

theorem write_success_reported:
  assumes "request_data request \<noteq> []"
    and "open_wb_write fs (os_path_join UPLOAD_FOLDER ''received_image.jpg'') (request_data request) = Inr fs'"
  shows "\<exists>msg. POST_agregarImagen fs request =
             (fs', \<lparr>status = 200, payload = JsonBody (JObject [(''message'', JString msg)])\<rparr>)
           \<and> (\<exists>pre post. msg = pre @ os_path_join UPLOAD_FOLDER ''received_image.jpg'' @ post)
           \<and> os_path_join UPLOAD_FOLDER ''received_image.jpg'' = ''uploads/received_image.jpg''"
proof -
  let ?p = "os_path_join UPLOAD_FOLDER ''received_image.jpg''"
  let ?msg = "''Image successfully saved at '' @ ?p"
  have r: "POST_agregarImagen fs request =
             (fs', \<lparr>status = 200, payload = JsonBody (JObject [(''message'', JString ?msg)])\<rparr>)"
    using assms by (simp add: POST_agregarImagen_def agregar_imagen_def jsonify_def with_status_def)
  have c: "?msg = ''Image successfully saved at '' @ ?p @ []" by simp
  have i: "\<exists>pre post. ?msg = pre @ ?p @ post"
    by (rule exI[of _ "''Image successfully saved at ''"], rule exI[of _ "[]"]) (rule c)
  show ?thesis
    by (rule exI[of _ ?msg], rule conjI, rule r, rule conjI, rule i, rule filepath_eq)
qed

theorem write_success_reported_witness:
  "request_data upload_a \<noteq> []
   \<and> open_wb_write fs_empty_uploads (os_path_join UPLOAD_FOLDER ''received_image.jpg'')
        (request_data upload_a)
       = Inr (fs_empty_uploads\<lparr>root := Dir [(''srv'', Dir [(''app'', Dir (app_files @
                [(''uploads'', Dir [(''received_image.jpg'', File jpeg_a)])]))])]\<rparr>)
   \<and> (\<exists>msg. POST_agregarImagen fs_empty_uploads upload_a =
             (fs_empty_uploads\<lparr>root := Dir [(''srv'', Dir [(''app'', Dir (app_files @
                [(''uploads'', Dir [(''received_image.jpg'', File jpeg_a)])]))])]\<rparr>,
              \<lparr>status = 200, payload = JsonBody (JObject [(''message'', JString msg)])\<rparr>)
           \<and> (\<exists>pre post. msg = pre @ os_path_join UPLOAD_FOLDER ''received_image.jpg'' @ post)
           \<and> os_path_join UPLOAD_FOLDER ''received_image.jpg'' = ''uploads/received_image.jpg'')"
proof -
  have h1: "request_data upload_a \<noteq> []"
    by code_simp
  have h2: "open_wb_write fs_empty_uploads (os_path_join UPLOAD_FOLDER ''received_image.jpg'')
        (request_data upload_a)
       = Inr (fs_empty_uploads\<lparr>root := Dir [(''srv'', Dir [(''app'', Dir (app_files @
                [(''uploads'', Dir [(''received_image.jpg'', File jpeg_a)])]))])]\<rparr>)"
    by code_simp
  from h1 h2 write_success_reported[OF h1 h2] show ?thesis by (intro conjI)
qed


section \<open>The listing route\<close>

text \<open>
  Claim C7. When \<^verbatim>\<open>uploads\<close> is a directory, \<^verbatim>\<open>GET /verImagenes\<close> answers with status 200
  and the JSON body \<^verbatim>\<open>{"imagenes": [...]}\<close> that names every entry of the directory,
  whatever the entry is (a sub-directory or a file that is no image are listed too).
  When it is not, listing fails and the answer has status 500 and a JSON body
  \<^verbatim>\<open>{"error": msg}\<close>.
\<close>

theorem listing_unfiltered:
  "(node_at fs UPLOAD_FOLDER = Inr (Dir es) \<longrightarrow>
      GET_verImagenes fs =
        \<lparr>status = 200,
         payload = JsonBody (JObject [(''imagenes'', JArray (map (\<lambda>(name, n). JString name) es))])\<rparr>)
   \<and> ((\<forall>es. node_at fs UPLOAD_FOLDER \<noteq> Inr (Dir es)) \<longrightarrow>
        status (GET_verImagenes fs) = 500
        \<and> (\<exists>msg. payload (GET_verImagenes fs) = JsonBody (JObject [(''error'', JString msg)])))"
proof (intro conjI impI)
  assume "node_at fs UPLOAD_FOLDER = Inr (Dir es)"
  then show "GET_verImagenes fs =
        \<lparr>status = 200,
         payload = JsonBody (JObject [(''imagenes'', JArray (map (\<lambda>(name, n). JString name) es))])\<rparr>"
    by (simp add: GET_verImagenes_def ver_imagenes_def os_listdir_def jsonify_def with_status_def
         case_prod_beta comp_def)
next
  assume a: "\<forall>es. node_at fs UPLOAD_FOLDER \<noteq> Inr (Dir es)"
  have "\<exists>e. os_listdir fs UPLOAD_FOLDER = Inl e"
  proof (cases "node_at fs UPLOAD_FOLDER")
    case (Inl x)
    then show ?thesis by (simp add: os_listdir_def)
  next
    case (Inr n)
    with a show ?thesis by (cases n) (simp_all add: os_listdir_def)
  qed
  then obtain e where e: "os_listdir fs UPLOAD_FOLDER = Inl e" ..
  then show "status (GET_verImagenes fs) = 500"
    by (simp add: GET_verImagenes_def ver_imagenes_def jsonify_def with_status_def)
  from e show "\<exists>msg. payload (GET_verImagenes fs) = JsonBody (JObject [(''error'', JString msg)])"
    by (simp add: GET_verImagenes_def ver_imagenes_def jsonify_def with_status_def)
qed

theorem listing_unfiltered_witness:
  "node_at fs_mixed_uploads UPLOAD_FOLDER
     = Inr (Dir [(''old'', Dir []), (''notes.txt'', File [0x68, 0x69])])
   \<and> GET_verImagenes fs_mixed_uploads =
        \<lparr>status = 200,
         payload = JsonBody (JObject [(''imagenes'', JArray [JString ''old'', JString ''notes.txt''])])\<rparr>
   \<and> (\<forall>es. node_at fs_no_uploads UPLOAD_FOLDER \<noteq> Inr (Dir es))
   \<and> status (GET_verImagenes fs_no_uploads) = 500
   \<and> (\<exists>msg. payload (GET_verImagenes fs_no_uploads) = JsonBody (JObject [(''error'', JString msg)]))"
proof -
  have h1: "node_at fs_mixed_uploads UPLOAD_FOLDER
     = Inr (Dir [(''old'', Dir []), (''notes.txt'', File [0x68, 0x69])])"
    by code_simp
  have n: "node_at fs_no_uploads UPLOAD_FOLDER = Inl ENOENT"
    by code_simp
  have h2: "\<forall>es. node_at fs_no_uploads UPLOAD_FOLDER \<noteq> Inr (Dir es)"
    unfolding n by simp
  have c1: "GET_verImagenes fs_mixed_uploads =
        \<lparr>status = 200,
         payload = JsonBody (JObject [(''imagenes'', JArray [JString ''old'', JString ''notes.txt''])])\<rparr>"
    using listing_unfiltered[of fs_mixed_uploads "[(''old'', Dir []), (''notes.txt'', File [0x68, 0x69])]",
        THEN conjunct1, THEN mp, OF h1] by simp
  have c2: "status (GET_verImagenes fs_no_uploads) = 500
     \<and> (\<exists>msg. payload (GET_verImagenes fs_no_uploads) = JsonBody (JObject [(''error'', JString msg)]))"
    by (rule listing_unfiltered[of fs_no_uploads, THEN conjunct2, THEN mp, OF h2])
  from h1 c1 h2 c2 show ?thesis by (intro conjI) (elim conjE, assumption)+
qed


section \<open>The CSV helper: the header and the rows\<close>

lemma map_of_zip_same: "k \<in> set ks \<Longrightarrow> map_of (zip ks ks) k = Some k"
  by (induction ks) auto

lemma dict_to_list_header: "dict_to_list fieldnames (zip fieldnames fieldnames) = Inr fieldnames"
proof -
  have f: "filter (\<lambda>k. k \<notin> set fieldnames) (map fst (zip fieldnames fieldnames)) = []"
    by (simp add: filter_empty_conv zip_same_conv_map comp_def)
  have m: "map (\<lambda>key. case map_of (zip fieldnames fieldnames) key of Some v \<Rightarrow> v | None \<Rightarrow> [])
             fieldnames = fieldnames"
    by (rule map_idI) (simp add: map_of_zip_same)
  show ?thesis by (simp add: dict_to_list_def f m)
qed

lemma dict_to_list_known_keys:
  assumes "set (map fst rowdict) \<subseteq> set fieldnames"
  shows "dict_to_list fieldnames rowdict =
           Inr (map (\<lambda>key. case map_of rowdict key of Some v \<Rightarrow> v | None \<Rightarrow> []) fieldnames)"
proof -
  have "filter (\<lambda>k. k \<notin> set fieldnames) (map fst rowdict) = []"
    using assms by (auto simp add: filter_empty_conv)
  then show ?thesis by (simp add: dict_to_list_def)
qed

lemma writerows_loop_known_keys:
  assumes "\<forall>r \<in> set data. set (map fst r) \<subseteq> set fieldnames"
  shows "writerows_loop fieldnames out data =
           Inr (out @ concat (map (\<lambda>r. csv_record
                  (map (\<lambda>key. case map_of r key of Some v \<Rightarrow> v | None \<Rightarrow> []) fieldnames)) data))"
  using assms
proof (induction data arbitrary: out)
  case Nil
  then show ?case by simp
next
  case (Cons r data)
  have k: "set (map fst r) \<subseteq> set fieldnames" using Cons.prems by simp
  have rest: "\<forall>r \<in> set data. set (map fst r) \<subseteq> set fieldnames" using Cons.prems by simp
  show ?case
    by (simp add: writerow_def dict_to_list_known_keys[OF k] Cons.IH[OF rest])
qed

text \<open>
  Claim C9. \<open>generar_csv\<close> returns the empty text for an empty sequence. For a sequence
  that is not empty and whose rows have no key outside those of the first row (uniform
  rows, in particular), it returns CSV text that starts with the header record, made of
  the keys of the first row in their order, followed by one record for each row, its
  cells in the order of the header. The header record is the keys joined by commas and
  ended by carriage return and line feed when no key needs quotes.
\<close>

theorem generar_csv_header:
  "generar_csv [] = Inr []
   \<and> (data \<noteq> [] \<and> (\<forall>r \<in> set data. set (map fst r) \<subseteq> set (map fst (hd data))) \<longrightarrow>
        generar_csv data =
          Inr (csv_record (map fst (hd data))
               @ concat (map (\<lambda>r. csv_record
                   (map (\<lambda>key. case map_of r key of Some v \<Rightarrow> v | None \<Rightarrow> [])
                        (map fst (hd data)))) data)))
   \<and> (keys \<noteq> [[]] \<and> list_all (\<lambda>k. \<not> needs_quotes k) keys \<longrightarrow>
        csv_record keys = py_join '','' keys @ [CHR 0x0D, CHR 0x0A])"
proof (intro conjI impI)
  show "generar_csv [] = Inr []" by (simp add: generar_csv_def)
next
  assume a: "data \<noteq> [] \<and> (\<forall>r \<in> set data. set (map fst r) \<subseteq> set (map fst (hd data)))"
  then have u: "\<forall>r \<in> set data. set (map fst r) \<subseteq> set (map fst (hd data))" by simp
  have h: "writeheader (map fst (hd data)) [] = Inr (csv_record (map fst (hd data)))"
    by (simp add: writeheader_def writerow_def dict_to_list_header)
  from a show "generar_csv data =
          Inr (csv_record (map fst (hd data))
               @ concat (map (\<lambda>r. csv_record
                   (map (\<lambda>key. case map_of r key of Some v \<Rightarrow> v | None \<Rightarrow> [])
                        (map fst (hd data)))) data))"
    by (simp add: generar_csv_def h writerows_loop_known_keys[OF u])
next
  assume a: "keys \<noteq> [[]] \<and> list_all (\<lambda>k. \<not> needs_quotes k) keys"
  then have "map csv_field keys = keys"
    by (intro map_idI) (simp add: csv_field_def list_all_iff)
  with a show "csv_record keys = py_join '','' keys @ [CHR 0x0D, CHR 0x0A]"
    by (simp add: csv_record_def)
qed

theorem generar_csv_header_witness:
  "[[(''id'', ''1''), (''name'', ''a,b'')], [(''name'', ''c''), (''id'', ''2'')]] \<noteq> []
   \<and> set (map fst [(''id'', ''1''), (''name'', ''a,b'')]) \<subseteq> set [''id'', ''name'']
   \<and> set (map fst [(''name'', ''c''), (''id'', ''2'')]) \<subseteq> set [''id'', ''name'']
   \<and> generar_csv [[(''id'', ''1''), (''name'', ''a,b'')], [(''name'', ''c''), (''id'', ''2'')]] =
       Inr (''id,name'' @ [CHR 0x0D, CHR 0x0A]
            @ ''1,'' @ [CHR 0x22] @ ''a,b'' @ [CHR 0x22, CHR 0x0D, CHR 0x0A]
            @ ''2,c'' @ [CHR 0x0D, CHR 0x0A])
   \<and> [''id'', ''name''] \<noteq> [[]] \<and> list_all (\<lambda>k. \<not> needs_quotes k) [''id'', ''name'']
   \<and> csv_record [''id'', ''name''] = py_join '','' [''id'', ''name''] @ [CHR 0x0D, CHR 0x0A]"
proof -
  let ?data = "[[(''id'', ''1''), (''name'', ''a,b'')], [(''name'', ''c''), (''id'', ''2'')]]"
  have h1: "?data \<noteq> []" by simp
  have h2: "set (map fst [(''id'', ''1''), (''name'', ''a,b'')]) \<subseteq> set [''id'', ''name'']"
    by simp
  have h2b: "set (map fst [(''name'', ''c''), (''id'', ''2'')]) \<subseteq> set [''id'', ''name'']"
    by simp
  have h2': "\<forall>r \<in> set ?data. set (map fst r) \<subseteq> set (map fst (hd ?data))" by auto
  have g: "generar_csv ?data =
          Inr (csv_record (map fst (hd ?data))
               @ concat (map (\<lambda>r. csv_record
                   (map (\<lambda>key. case map_of r key of Some v \<Rightarrow> v | None \<Rightarrow> [])
                        (map fst (hd ?data)))) ?data))"
    by (rule generar_csv_header[of ?data "[]", THEN conjunct2, THEN conjunct1, THEN mp])
       (rule conjI[OF h1 h2'])
  have e: "csv_record (map fst (hd ?data))
               @ concat (map (\<lambda>r. csv_record
                   (map (\<lambda>key. case map_of r key of Some v \<Rightarrow> v | None \<Rightarrow> [])
                        (map fst (hd ?data)))) ?data)
           = ''id,name'' @ [CHR 0x0D, CHR 0x0A]
            @ ''1,'' @ [CHR 0x22] @ ''a,b'' @ [CHR 0x22, CHR 0x0D, CHR 0x0A]
            @ ''2,c'' @ [CHR 0x0D, CHR 0x0A]"
    by (simp add: csv_record_def csv_field_def needs_quotes_def)
  have h3: "[''id'', ''name''] \<noteq> [[]]" by simp
  have h4: "list_all (\<lambda>k. \<not> needs_quotes k) [''id'', ''name'']"
    by (simp add: needs_quotes_def)
  have c3: "csv_record [''id'', ''name''] = py_join '','' [''id'', ''name''] @ [CHR 0x0D, CHR 0x0A]"
    by (rule generar_csv_header[of "[]" "[''id'', ''name'']", THEN conjunct2, THEN conjunct2, THEN mp])
       (rule conjI[OF h3 h4])
  from h1 h2 h2b g[unfolded e] h3 h4 c3 show ?thesis by (intro conjI)
qed


section \<open>Writing a file, and what can be read afterwards\<close>

lemma put_cons:
  "cs \<noteq> [] \<Longrightarrow>
   put (Dir es) (c # cs) new =
     (case map_of es c of
        None \<Rightarrow> None
      | Some n \<Rightarrow> (case put n cs new of None \<Rightarrow> None | Some n' \<Rightarrow> Some (Dir (AList.update c n' es))))"
  by (cases cs) (auto split: option.splits)

lemma put_dir_is_dir: "put (Dir es) (c # cs) new = Some r' \<Longrightarrow> \<exists>es'. r' = Dir es'"
  by (cases cs) (auto split: option.splits)

lemma lookup_put_same: "put r q new = Some r' \<Longrightarrow> lookup r' q = Some new"
proof (induction r q new arbitrary: r' rule: put.induct)
  case (1 n new)
  then show ?case by simp
next
  case (2 b c cs new)
  then show ?case by simp
next
  case (3 es c new)
  then show ?case by (auto simp add: update_conv')
next
  case (4 es c d cs new)
  then show ?case
    by (auto simp add: update_conv' split: option.splits)
qed


lemma lookup_put_prefix:
  "put r (a @ b) new = Some r' \<Longrightarrow> b \<noteq> [] \<Longrightarrow> \<exists>es'. lookup r' a = Some (Dir es')"
proof (induction a arbitrary: r r')
  case Nil
  then obtain c cs where b: "b = c # cs" by (cases b) auto
  from Nil b obtain es where "r = Dir es" by (cases r) auto
  with Nil b show ?case using put_dir_is_dir[of es c cs new r'] by simp
next
  case (Cons x a)
  from Cons.prems obtain es1 where r: "r = Dir es1" by (cases r) simp_all
  from Cons.prems r obtain n n' where n: "map_of es1 x = Some n" and p: "put n (a @ b) new = Some n'"
    and r': "r' = Dir (AList.update x n' es1)"
    by (auto simp add: put_cons split: option.splits)
  from Cons.IH[OF p Cons.prems(2)] r' show ?case by (simp add: update_conv')
qed

lemma lookup_append:
  "lookup r (a @ b) = (case lookup r a of None \<Rightarrow> None | Some n \<Rightarrow> lookup n b)"
proof (induction a arbitrary: r)
  case Nil
  then show ?case by simp
next
  case (Cons x a)
  then show ?case by (cases r) (auto split: option.splits)
qed

text \<open>
  Writing a file where there was none, or a file, leaves every directory of the tree a
  directory, so every path that led somewhere leads to the same position afterwards.
\<close>

lemma lookup_dir_put:
  "put r p (File d) = Some r' \<Longrightarrow> \<forall>sub. lookup r p \<noteq> Some (Dir sub) \<Longrightarrow>
   lookup r x = Some (Dir es) \<Longrightarrow> \<exists>es'. lookup r' x = Some (Dir es')"
proof (induction r p "File d" arbitrary: r' x es rule: put.induct)
  case (1 n)
  then show ?case by (cases n; cases x) auto
next
  case (2 b c cs)
  then show ?case by simp
next
  case (3 es0 c)
  show ?case
  proof (cases x)
    case Nil
    with 3 show ?thesis by auto
  next
    case (Cons y ys)
    show ?thesis
    proof (cases "y = c")
      case True
      from 3(3) Cons True obtain n where n: "map_of es0 c = Some n" and l: "lookup n ys = Some (Dir es)"
        by (auto split: option.splits)
      from l have "\<exists>sub. n = Dir sub" by (cases n; cases ys) auto
      with n 3(2) show ?thesis by auto
    next
      case False
      with 3 Cons show ?thesis by (auto simp add: update_conv' split: option.splits)
    qed
  qed
next
  case (4 es0 c e cs)
  from 4(2) obtain n n' where n: "map_of es0 c = Some n" and p: "put n (e # cs) (File d) = Some n'"
    and r': "r' = Dir (AList.update c n' es0)"
    by (auto split: option.splits)
  have nd: "\<forall>sub. lookup n (e # cs) \<noteq> Some (Dir sub)" using 4(3) n by simp
  show ?case
  proof (cases x)
    case Nil
    with r' show ?thesis by simp
  next
    case (Cons y ys)
    show ?thesis
    proof (cases "y = c")
      case True
      with 4(4) Cons n have "lookup n ys = Some (Dir es)" by simp
      from 4(1)[OF n p nd this] r' Cons True show ?thesis by (simp add: update_conv')
    next
      case False
      with 4(4) Cons r' show ?thesis by (auto simp add: update_conv' split: option.splits)
    qed
  qed
qed

lemma walk_put:
  assumes "put r p (File d) = Some r'" and "\<forall>sub. lookup r p \<noteq> Some (Dir sub)"
  shows "walk r cur cs = Inr q \<Longrightarrow> walk r' cur cs = Inr q"
proof (induction cs arbitrary: cur)
  case Nil
  then show ?case by simp
next
  case (Cons c cs)
  from Cons.prems obtain es where l: "lookup r cur = Some (Dir es)"
    by (auto split: option.splits node.splits)
  from lookup_dir_put[OF assms l] obtain es' where l': "lookup r' cur = Some (Dir es')" ..
  from Cons.prems l have
    "(if c = [] \<or> c = ''.'' then walk r cur cs
      else if c = ''..'' then walk r (butlast cur) cs else walk r (cur @ [c]) cs) = Inr q"
    by simp
  then have
    "(if c = [] \<or> c = ''.'' then walk r' cur cs
      else if c = ''..'' then walk r' (butlast cur) cs else walk r' (cur @ [c]) cs) = Inr q"
    using Cons.IH by (auto split: if_splits)
  with l' show ?case by simp
qed

lemma split_sep_not_Nil: "split_sep sep s \<noteq> []"
  by (induction s) (auto split: list.splits)

lemma split_sep_app: "split_sep sep (a @ sep # b) = split_sep sep a @ split_sep sep b"
proof (induction a)
  case Nil
  then show ?case by simp
next
  case (Cons x a)
  obtain p ps where "split_sep sep a = p # ps"
    using split_sep_not_Nil[of sep a] by (cases "split_sep sep a") auto
  with Cons show ?case by simp
qed

lemma walk_append:
  "walk r cur (xs @ ys) = (case walk r cur xs of Inl e \<Rightarrow> Inl e | Inr q \<Rightarrow> walk r q ys)"
  by (induction xs arbitrary: cur) (auto split: option.splits node.splits)

lemma walk_needs_dir:
  "walk r cur (c # cs) = Inr q \<Longrightarrow> walk r cur [[]] = Inr cur"
  by (auto split: option.splits node.splits)

lemma walk_stay: "walk r cur [[]] = Inr q \<Longrightarrow> q = cur"
  by (auto split: option.splits node.splits)

text \<open>
  Joining a relative path to an absolute one: the joined path leads wherever the relative
  path leads from the position of the absolute one.
\<close>

lemma resolve_join:
  assumes ab: "startswith R ''/''" and rel: "\<not> startswith P ''/''"
  shows "resolve fs (os_path_join R P) = Inr q \<longleftrightarrow>
           (\<exists>base. resolve fs R = Inr base \<and> walk (root fs) base (split_sep (CHR ''/'') P) = Inr q)"
proof -
  from ab obtain R' where R: "R = CHR ''/'' # R'"
    by (cases R) (auto simp add: startswith_def)
  obtain c cs where sp: "split_sep (CHR ''/'') P = c # cs"
    using split_sep_not_Nil[of "CHR ''/''" P] by (cases "split_sep (CHR ''/'') P") auto
  have rR: "resolve fs R = walk (root fs) [] (split_sep (CHR ''/'') R)"
    unfolding R by (simp add: resolve_def path_start_def startswith_def)
  show ?thesis
  proof (cases "last R = CHR ''/''")
    case True
    define R0 where "R0 = butlast R"
    have R0: "R = R0 @ [CHR ''/'']"
      unfolding R0_def using True R by (metis append_butlast_last_id list.distinct(1))
    have J: "os_path_join R P = R0 @ CHR ''/'' # P"
      using rel True by (simp add: os_path_join_def R0)
    have st: "startswith (R0 @ CHR ''/'' # P) ''/''"
      using R R0 by (cases R0) (auto simp add: startswith_def)
    have rJ: "resolve fs (os_path_join R P)
                = walk (root fs) [] (split_sep (CHR ''/'') R0 @ split_sep (CHR ''/'') P)"
      unfolding J using st by (simp add: resolve_def path_start_def split_sep_app)
    have sR: "split_sep (CHR ''/'') R = split_sep (CHR ''/'') R0 @ [[]]"
      unfolding R0 using split_sep_app[of "CHR ''/''" R0 "[]"] by simp
    show ?thesis
    proof (cases "walk (root fs) [] (split_sep (CHR ''/'') R0)")
      case (Inl e)
      then show ?thesis by (simp add: rJ rR sR walk_append)
    next
      case (Inr q0)
      show ?thesis
      proof
        assume "resolve fs (os_path_join R P) = Inr q"
        then have w: "walk (root fs) q0 (c # cs) = Inr q"
          by (simp add: rJ walk_append Inr sp)
        from walk_needs_dir[OF w] have "resolve fs R = Inr q0"
          by (simp add: rR sR walk_append Inr)
        with w sp show "\<exists>base. resolve fs R = Inr base
                          \<and> walk (root fs) base (split_sep (CHR ''/'') P) = Inr q"
          by simp
      next
        assume "\<exists>base. resolve fs R = Inr base
                  \<and> walk (root fs) base (split_sep (CHR ''/'') P) = Inr q"
        then obtain base where b: "resolve fs R = Inr base"
          and w: "walk (root fs) base (split_sep (CHR ''/'') P) = Inr q" by auto
        from b have "walk (root fs) q0 [[]] = Inr base"
          by (simp add: rR sR walk_append Inr)
        from walk_stay[OF this] w show "resolve fs (os_path_join R P) = Inr q"
          by (simp add: rJ walk_append Inr)
      qed
    qed
  next
    case False
    have J: "os_path_join R P = R @ CHR ''/'' # P"
      using rel False R by (simp add: os_path_join_def)
    have "resolve fs (os_path_join R P)
            = walk (root fs) [] (split_sep (CHR ''/'') R @ split_sep (CHR ''/'') P)"
      unfolding J unfolding R by (simp add: resolve_def path_start_def startswith_def
          split_sep_app[of "CHR ''/''" "CHR ''/'' # R'" P, simplified])
    then show ?thesis
      by (cases "walk (root fs) [] (split_sep (CHR ''/'') R)") (simp_all add: rR walk_append)
  qed
qed

lemma split_filepath:
  "split_sep (CHR ''/'') ''uploads/received_image.jpg'' = [''uploads'', ''received_image.jpg'']"
  by simp

lemma split_upload_folder: "split_sep (CHR ''/'') UPLOAD_FOLDER = [''uploads'']"
  by (simp add: UPLOAD_FOLDER_def)

text \<open>What a successful write of the image says about the file system before and after.\<close>

lemma open_wb_write_image:
  assumes "open_wb_write fs ''uploads/received_image.jpg'' data = Inr fs'"
  shows "\<exists>es r. lookup (root fs) (upload_dir fs) = Some (Dir es)
           \<and> (\<forall>sub. lookup (root fs) (upload_dir fs @ [''received_image.jpg'']) \<noteq> Some (Dir sub))
           \<and> put (root fs) (upload_dir fs @ [''received_image.jpg'']) (File data) = Some r
           \<and> fs' = fs\<lparr>root := r\<rparr>"
proof -
  have s: "path_start fs ''uploads/received_image.jpg'' = cwd fs"
    by (simp add: path_start_def startswith_def)
  have w: "walk (root fs) (cwd fs) [''uploads''] = Inr (upload_dir fs)
           \<or> (\<exists>e. walk (root fs) (cwd fs) [''uploads''] = Inl e)"
    by (simp add: upload_dir_def UPLOAD_FOLDER_def split: option.splits node.splits)
  from assms show ?thesis
    using w
    by (auto simp add: open_wb_write_def s Let_def lookup_append
          split: sum.splits option.splits node.splits if_splits)
qed

lemma runs_in_app_root_after_write:
  assumes "runs_in_app_root fs"
    and "put (root fs) p (File data) = Some r"
    and "\<forall>sub. lookup (root fs) p \<noteq> Some (Dir sub)"
  shows "runs_in_app_root (fs\<lparr>root := r\<rparr>)"
proof -
  from assms(1) have ab: "startswith (app_root_path fs) ''/''"
    and w: "walk (root fs) [] (split_sep (CHR ''/'') (app_root_path fs)) = Inr (cwd fs)"
    by (auto simp add: runs_in_app_root_def resolve_def path_start_def split: if_splits)
  from ab have ne: "app_root_path fs \<noteq> []" by (auto simp add: startswith_def)
  from walk_put[OF assms(2,3) w] ab ne show ?thesis
    by (simp add: runs_in_app_root_def resolve_def path_start_def)
qed

lemma walk_image_after_write:
  assumes "put (root fs) (upload_dir fs @ [''received_image.jpg'']) (File data) = Some r"
  shows "walk r (cwd fs) [''uploads'', ''received_image.jpg'']
           = Inr (upload_dir fs @ [''received_image.jpg''])"
proof -
  have a: "put (root fs) (cwd fs @ [''uploads'', ''received_image.jpg'']) (File data) = Some r"
    using assms by (simp add: upload_dir_def UPLOAD_FOLDER_def)
  obtain e1 where e1: "lookup r (cwd fs) = Some (Dir e1)"
    using lookup_put_prefix[OF a] by auto
  have a': "put (root fs) ((cwd fs @ [''uploads'']) @ [''received_image.jpg'']) (File data) = Some r"
    using a by simp
  obtain e2 where e2: "lookup r (cwd fs @ [''uploads'']) = Some (Dir e2)"
    using lookup_put_prefix[OF a'] by auto
  show ?thesis
    by (simp add: e1 e2 upload_dir_def UPLOAD_FOLDER_def)
qed

lemma safe_join_image:
  "safe_join UPLOAD_FOLDER ''received_image.jpg'' = Some ''uploads/received_image.jpg''"
  by code_simp

lemma url_rule_image: "url_rule_matches ''received_image.jpg''"
  by code_simp

lemma get_image_after_write:
  assumes ra: "runs_in_app_root fs"
    and p: "put (root fs) (upload_dir fs @ [''received_image.jpg'']) (File data) = Some r"
    and nd: "\<forall>sub. lookup (root fs) (upload_dir fs @ [''received_image.jpg'']) \<noteq> Some (Dir sub)"
  shows "GET_verImagen (fs\<lparr>root := r\<rparr>) ''received_image.jpg''
           = \<lparr>status = 200, payload = FileBody data\<rparr>"
proof -
  let ?fs' = "fs\<lparr>root := r\<rparr>"
  let ?J = "os_path_join (app_root_path ?fs') ''uploads/received_image.jpg''"
  from runs_in_app_root_after_write[OF ra p nd]
  have ab: "startswith (app_root_path ?fs') ''/''"
    and rr: "resolve ?fs' (app_root_path ?fs') = Inr (cwd fs)"
    by (simp_all add: runs_in_app_root_def)
  have rel: "\<not> startswith ''uploads/received_image.jpg'' ''/''"
    by (simp add: startswith_def)
  have "resolve ?fs' ?J = Inr (upload_dir fs @ [''received_image.jpg''])"
    unfolding resolve_join[OF ab rel] using rr walk_image_after_write[OF p]
    by (simp add: split_filepath del: walk.simps)
  then have n: "node_at ?fs' ?J = Inr (File data)"
    by (simp add: node_at_def lookup_put_same[OF p])
  show ?thesis
    using n
    by (simp add: GET_verImagen_def url_rule_image ver_imagen_def send_from_directory_def
          safe_join_image os_path_isfile_def send_file_def dispatch_def Let_def)
qed



lemma upload_ok:
  assumes "POST_agregarImagen fs request = (fs', resp)" and "status resp = 200"
  shows "request_data request \<noteq> []
         \<and> open_wb_write fs ''uploads/received_image.jpg'' (request_data request) = Inr fs'"
  using assms
  by (auto simp add: upload_decided_by_data_and_write split: if_splits sum.splits)


lemma accepted_data_is_body: "request_data request \<noteq> [] \<Longrightarrow> request_data request = body request"
  by (simp add: request_data_def split: if_splits)

text \<open>
  Claim C1, as the code has it. When the process runs in the root path of the
  application, and a \<^verbatim>\<open>POST /agregarImagen\<close> with a body that is not empty is answered
  with status 200 (the file was written), then \<^verbatim>\<open>GET /verImagen/received_image.jpg\<close>
  answers with status 200 and exactly the bytes of the body. Neither condition can be
  left out. The program never creates the directory \<^verbatim>\<open>uploads\<close>: where it is missing
  the write raises, the upload is answered with status 500 and there is no image to
  fetch. And the upload is written below the working directory, while the image is
  fetched from below the root path of the application: in a process that runs elsewhere
  the upload is answered with status 200 and the fetch with status 404.
\<close>

theorem upload_then_fetch:
  assumes "runs_in_app_root fs"
    and "body request \<noteq> []"
    and "POST_agregarImagen fs request = (fs', resp)"
    and "status resp = 200"
  shows "GET_verImagen fs' ''received_image.jpg''
           = \<lparr>status = 200, payload = FileBody (body request)\<rparr>"
proof -
  from upload_ok[OF assms(3,4)]
  have d: "request_data request \<noteq> []"
    and w: "open_wb_write fs ''uploads/received_image.jpg'' (request_data request) = Inr fs'"
    by simp_all
  from open_wb_write_image[OF w] obtain es r where
    nd: "\<forall>sub. lookup (root fs) (upload_dir fs @ [''received_image.jpg'']) \<noteq> Some (Dir sub)"
    and p: "put (root fs) (upload_dir fs @ [''received_image.jpg'']) (File (request_data request)) = Some r"
    and f: "fs' = fs\<lparr>root := r\<rparr>" by auto
  show ?thesis
    unfolding f accepted_data_is_body[OF d, symmetric]
    by (rule get_image_after_write[OF assms(1) p nd])
qed

theorem upload_then_fetch_witness:
  "runs_in_app_root fs_empty_uploads
   \<and> body upload_a \<noteq> []
   \<and> POST_agregarImagen fs_empty_uploads upload_a =
       (fs_empty_uploads\<lparr>root := Dir [(''srv'', Dir [(''app'', Dir (app_files @
                [(''uploads'', Dir [(''received_image.jpg'', File jpeg_a)])]))])]\<rparr>,
        \<lparr>status = 200, payload = JsonBody (JObject [(''message'',
            JString ''Image successfully saved at uploads/received_image.jpg'')])\<rparr>)
   \<and> status \<lparr>status = 200, payload = JsonBody (JObject [(''message'',
            JString ''Image successfully saved at uploads/received_image.jpg'')])\<rparr> = 200
   \<and> GET_verImagen (fs_empty_uploads\<lparr>root := Dir [(''srv'', Dir [(''app'', Dir (app_files @
                [(''uploads'', Dir [(''received_image.jpg'', File jpeg_a)])]))])]\<rparr>)
         ''received_image.jpg''
       = \<lparr>status = 200, payload = FileBody jpeg_a\<rparr>"
proof -
  let ?fs' = "fs_empty_uploads\<lparr>root := Dir [(''srv'', Dir [(''app'', Dir (app_files @
                [(''uploads'', Dir [(''received_image.jpg'', File jpeg_a)])]))])]\<rparr>"
  let ?resp = "\<lparr>status = 200, payload = JsonBody (JObject [(''message'',
            JString ''Image successfully saved at uploads/received_image.jpg'')])\<rparr>"
  have h0: "runs_in_app_root fs_empty_uploads" by code_simp
  have h1: "body upload_a \<noteq> []" by code_simp
  have h2: "POST_agregarImagen fs_empty_uploads upload_a = (?fs', ?resp)" by code_simp
  have h3: "status ?resp = 200" by simp
  have b: "body upload_a = jpeg_a" by (simp add: upload_a_def)
  have c: "GET_verImagen ?fs' ''received_image.jpg'' = \<lparr>status = 200, payload = FileBody jpeg_a\<rparr>"
    using upload_then_fetch[OF h0 h1 h2 h3] by (simp add: b)
  from h0 h1 h2 h3 c show ?thesis by (intro conjI)
qed

theorem upload_then_fetch_counterexample:
  "body upload_a \<noteq> []
   \<and> status (snd (POST_agregarImagen fs_no_uploads upload_a)) = 500
   \<and> GET_verImagen (fst (POST_agregarImagen fs_no_uploads upload_a)) ''received_image.jpg''
       = \<lparr>status = 404, payload = DefaultErrorPage\<rparr>
   \<and> payload (GET_verImagen (fst (POST_agregarImagen fs_no_uploads upload_a))
         ''received_image.jpg'') \<noteq> FileBody (body upload_a)
   \<and> status (snd (POST_agregarImagen fs_other_cwd upload_a)) = 200
   \<and> GET_verImagen (fst (POST_agregarImagen fs_other_cwd upload_a)) ''received_image.jpg''
       = \<lparr>status = 404, payload = DefaultErrorPage\<rparr>
   \<and> payload (GET_verImagen (fst (POST_agregarImagen fs_other_cwd upload_a))
         ''received_image.jpg'') \<noteq> FileBody (body upload_a)"
proof -
  have a: "body upload_a \<noteq> []" by code_simp
  have b: "status (snd (POST_agregarImagen fs_no_uploads upload_a)) = 500" by code_simp
  have c: "GET_verImagen (fst (POST_agregarImagen fs_no_uploads upload_a)) ''received_image.jpg''
             = \<lparr>status = 404, payload = DefaultErrorPage\<rparr>"
    by code_simp
  have d: "payload (GET_verImagen (fst (POST_agregarImagen fs_no_uploads upload_a))
             ''received_image.jpg'') \<noteq> FileBody (body upload_a)"
    unfolding c by simp
  have e: "status (snd (POST_agregarImagen fs_other_cwd upload_a)) = 200" by code_simp
  have f: "GET_verImagen (fst (POST_agregarImagen fs_other_cwd upload_a)) ''received_image.jpg''
             = \<lparr>status = 404, payload = DefaultErrorPage\<rparr>"
    by code_simp
  have g: "payload (GET_verImagen (fst (POST_agregarImagen fs_other_cwd upload_a))
             ''received_image.jpg'') \<noteq> FileBody (body upload_a)"
    unfolding f by simp
  from a b c d e f g show ?thesis by (intro conjI)
qed




lemma send_from_directory_raises_not_found:
  "send_from_directory fs directory path = Inl e \<Longrightarrow> e = not_found"
  by (auto simp add: send_from_directory_def os_path_isfile_def send_file_def Let_def
        split: option.splits if_splits sum.splits node.splits)

lemma ver_imagen_no_json:
  "GET_verImagen fs filename = \<lparr>status = 404, payload = DefaultErrorPage\<rparr>
   \<or> (\<exists>b. GET_verImagen fs filename = \<lparr>status = 200, payload = FileBody b\<rparr>)"
proof (cases "url_rule_matches filename")
  case False
  then show ?thesis by (simp add: GET_verImagen_def)
next
  case True
  show ?thesis
  proof (cases "send_from_directory fs UPLOAD_FOLDER filename")
    case (Inl e)
    with send_from_directory_raises_not_found[OF Inl] True show ?thesis
      by (simp add: GET_verImagen_def ver_imagen_def dispatch_def not_found_def)
  next
    case (Inr resp)
    then have "\<exists>b. resp = \<lparr>status = 200, payload = FileBody b\<rparr>"
      by (auto simp add: send_from_directory_def send_file_def Let_def
            split: option.splits if_splits sum.splits node.splits)
    with Inr True show ?thesis
      by (auto simp add: GET_verImagen_def ver_imagen_def dispatch_def)
  qed
qed

text \<open>
  Claim C3, at one request. In a file system whose directory \<^verbatim>\<open>uploads\<close> is empty,
  \<^verbatim>\<open>GET /verImagen/doesnotexist.jpg\<close>: \<^verbatim>\<open>send_from_directory\<close> raises Werkzeug's
  \<^verbatim>\<open>NotFound\<close>, which the clause \<^verbatim>\<open>except FileNotFoundError\<close> of the view does not
  catch, so the answer has status 404 with the error page of the framework, and not the
  JSON body \<^verbatim>\<open>{"error": "Imagen no encontrada"}\<close> of that clause.
\<close>

theorem missing_image_default_page:
  "ver_imagen fs_empty_uploads ''doesnotexist.jpg'' = Inl not_found
   \<and> class_of not_found \<noteq> FileNotFoundError
   \<and> GET_verImagen fs_empty_uploads ''doesnotexist.jpg''
       = \<lparr>status = 404, payload = DefaultErrorPage\<rparr>
   \<and> payload (GET_verImagen fs_empty_uploads ''doesnotexist.jpg'')
       \<noteq> JsonBody (JObject [(''error'', JString ''Imagen no encontrada'')])"
proof -
  have a: "ver_imagen fs_empty_uploads ''doesnotexist.jpg'' = Inl not_found" by code_simp
  have b: "class_of not_found \<noteq> FileNotFoundError" by (simp add: not_found_def)
  have c: "GET_verImagen fs_empty_uploads ''doesnotexist.jpg''
       = \<lparr>status = 404, payload = DefaultErrorPage\<rparr>"
    by code_simp
  have d: "payload (GET_verImagen fs_empty_uploads ''doesnotexist.jpg'')
       \<noteq> JsonBody (JObject [(''error'', JString ''Imagen no encontrada'')])"
    unfolding c by simp
  from a b c d show ?thesis by (intro conjI)
qed


section \<open>No file outside the upload directory is served\<close>




























end
